theory Spec2Isabelle
  imports Complex_Main
begin

section \<open>The CO2 tracker plugin (co2-tracker.ts)\<close>

text \<open>
  A shallow embedding of \<^verbatim>\<open>.opencode/plugins/co2-tracker.ts\<close>.

  Modelling decisions.
  \<^item> Token counts are \<open>int\<close> and the monetary cost is \<open>real\<close>: the arithmetic of the
    accumulator and of the estimator is exact, where the source computes on IEEE doubles.
    The grader is modelled on doubles: its division rounds to the nearest double and
    its decimal bounds are the doubles that the literals of the source denote.
  \<^item> Values that the source can make non-finite (the grid intensity read from the
    environment, and what is computed from it) are \<open>jsnum\<close>: a real number, one of the
    two infinities, or NaN.
  \<^item> Identifiers are \<open>string\<close>s of 8-bit characters.
  \<^item> A \<^verbatim>\<open>Map\<close> is a partial function; a \<^verbatim>\<open>Set\<close> of strings is a list without
    duplicates in insertion order, the order in which the source iterates over it.
  \<^item> \<^verbatim>\<open>Date.now()\<close> is a parameter of the event handler.
\<close>

subsection \<open>Per-session accumulator: data\<close>

record SessionStats =
  inputTokens :: int
  outputTokens :: int
  reasoningTokens :: int
  cacheReadTokens :: int
  cacheWriteTokens :: int
  cost :: real
  messages :: int
  models :: "string list"
  providers :: "string list"
  firstSeen :: nat

definition newSessionStats :: "nat \<Rightarrow> SessionStats" where
  "newSessionStats now =
     \<lparr> inputTokens = 0, outputTokens = 0, reasoningTokens = 0,
       cacheReadTokens = 0, cacheWriteTokens = 0, cost = 0, messages = 0,
       models = [], providers = [], firstSeen = now \<rparr>"

text \<open>The value type of \<^verbatim>\<open>messageSnapshots\<close> (its six fields, prefixed \<open>snap_\<close>).\<close>

record Snapshot =
  snap_input :: int
  snap_output :: int
  snap_reasoning :: int
  snap_cacheRead :: int
  snap_cacheWrite :: int
  snap_cost :: real

definition zeroSnapshot :: Snapshot where
  "zeroSnapshot =
     \<lparr> snap_input = 0, snap_output = 0, snap_reasoning = 0,
       snap_cacheRead = 0, snap_cacheWrite = 0, snap_cost = 0 \<rparr>"

text \<open>
  \<^verbatim>\<open>event.properties.info\<close> of a \<^verbatim>\<open>message.updated\<close> event. The nested
  \<^verbatim>\<open>tokens: {input, output, reasoning, cache: {read, write}}\<close> is flattened.
\<close>

record MessageInfo =
  sessionID :: string
  msg_id :: string
  role :: string
  tokens_input :: int
  tokens_output :: int
  tokens_reasoning :: int
  tokens_cache_read :: int
  tokens_cache_write :: int
  msg_cost :: real
  modelID :: string
  providerID :: string

text \<open>The host's events: \<^verbatim>\<open>message.updated\<close>, or any other type (named by its tag).\<close>

datatype Event = MessageUpdated MessageInfo | OtherEvent string

text \<open>The two maps the plugin closure owns.\<close>

record PluginState =
  sessions :: "string \<rightharpoonup> SessionStats"
  messageSnapshots :: "string \<rightharpoonup> Snapshot"

definition initialState :: PluginState where
  "initialState = \<lparr> sessions = Map.empty, messageSnapshots = Map.empty \<rparr>"

subsection \<open>Per-session accumulator: the event handler\<close>

text \<open>The template string \<^verbatim>\<open>`${msg.sessionID}:${msg.id}`\<close>.\<close>

definition messageKey :: "string \<Rightarrow> string \<Rightarrow> string" where
  "messageKey sid mid = sid @ '':'' @ mid"

text \<open>\<^verbatim>\<open>Set.prototype.add\<close> on an insertion-ordered set.\<close>

definition set_add :: "string \<Rightarrow> string list \<Rightarrow> string list" where
  "set_add x xs = (if x \<in> set xs then xs else xs @ [x])"

definition snapshotOf :: "MessageInfo \<Rightarrow> Snapshot" where
  "snapshotOf msg =
     \<lparr> snap_input = tokens_input msg, snap_output = tokens_output msg,
       snap_reasoning = tokens_reasoning msg, snap_cacheRead = tokens_cache_read msg,
       snap_cacheWrite = tokens_cache_write msg, snap_cost = msg_cost msg \<rparr>"

text \<open>Lines 371 to 379: the updates of the session's record.\<close>

definition accumulate :: "SessionStats \<Rightarrow> Snapshot \<Rightarrow> bool \<Rightarrow> MessageInfo \<Rightarrow> SessionStats" where
  "accumulate stats prev isNew msg =
     stats\<lparr>
       inputTokens := inputTokens stats + (tokens_input msg - snap_input prev),
       outputTokens := outputTokens stats + (tokens_output msg - snap_output prev),
       reasoningTokens := reasoningTokens stats + (tokens_reasoning msg - snap_reasoning prev),
       cacheReadTokens := cacheReadTokens stats + (tokens_cache_read msg - snap_cacheRead prev),
       cacheWriteTokens := cacheWriteTokens stats + (tokens_cache_write msg - snap_cacheWrite prev),
       cost := cost stats + (msg_cost msg - snap_cost prev),
       messages := (if isNew then messages stats + 1 else messages stats),
       models := set_add (modelID msg) (models stats),
       providers := set_add (providerID msg) (providers stats) \<rparr>"

text \<open>
  The \<^verbatim>\<open>event\<close> hook (lines 346 to 391). \<open>now\<close> is what \<^verbatim>\<open>Date.now()\<close> returns
  should a new session record be made.
\<close>

definition event :: "nat \<Rightarrow> Event \<Rightarrow> PluginState \<Rightarrow> PluginState" where
  "event now ev st =
     (case ev of
        OtherEvent ty \<Rightarrow> st
      | MessageUpdated msg \<Rightarrow>
          if role msg \<noteq> ''assistant'' then st
          else
            let key = messageKey (sessionID msg) (msg_id msg);
                stats = (case sessions st (sessionID msg) of
                           None \<Rightarrow> newSessionStats now
                         | Some s \<Rightarrow> s);
                prev = (case messageSnapshots st key of
                          None \<Rightarrow> zeroSnapshot
                        | Some p \<Rightarrow> p);
                isNew = (messageSnapshots st key = None)
            in \<lparr> sessions = (sessions st)(sessionID msg \<mapsto> accumulate stats prev isNew msg),
                 messageSnapshots = (messageSnapshots st)(key \<mapsto> snapshotOf msg) \<rparr>)"

text \<open>A run of the handler over a stream of events, each with its clock reading.\<close>

fun run :: "(nat \<times> Event) list \<Rightarrow> PluginState \<Rightarrow> PluginState" where
  "run [] st = st"
| "run ((now, ev) # evs) st = run evs (event now ev st)"

text \<open>The running input-token total of a session, as a report would read it.\<close>

definition sessionInput :: "PluginState \<Rightarrow> string \<Rightarrow> int" where
  "sessionInput st sid = (case sessions st sid of None \<Rightarrow> 0 | Some s \<Rightarrow> inputTokens s)"

text \<open>An assistant update for message \<open>mid\<close> of session \<open>sid\<close> carrying the usage of \<open>m\<close>.\<close>

definition assistantUpdate :: "string \<Rightarrow> string \<Rightarrow> MessageInfo \<Rightarrow> Event" where
  "assistantUpdate sid mid m =
     MessageUpdated (m\<lparr> sessionID := sid, msg_id := mid, role := ''assistant'' \<rparr>)"

text \<open>
  What the handler reads before it accumulates: the session's record (a fresh one when the
  session has none) and the stored snapshot of the message (all-zero when it has none).
\<close>

definition statsBefore :: "nat \<Rightarrow> PluginState \<Rightarrow> string \<Rightarrow> SessionStats" where
  "statsBefore now st sid = (case sessions st sid of None \<Rightarrow> newSessionStats now | Some s \<Rightarrow> s)"

definition priorSnapshot :: "PluginState \<Rightarrow> string \<Rightarrow> string \<Rightarrow> Snapshot" where
  "priorSnapshot st sid mid =
     (case messageSnapshots st (messageKey sid mid) of None \<Rightarrow> zeroSnapshot | Some p \<Rightarrow> p)"

text \<open>A sample usage report with \<open>n\<close> cumulative input tokens, for concrete runs.\<close>

definition usage :: "int \<Rightarrow> MessageInfo" where
  "usage n =
     \<lparr> sessionID = [], msg_id = [], role = ''assistant'',
       tokens_input = n, tokens_output = 0, tokens_reasoning = 0,
       tokens_cache_read = 0, tokens_cache_write = 0, msg_cost = 0,
       modelID = ''gpt-4o'', providerID = ''openai'' \<rparr>"

text \<open>
  The snapshot slot an event writes: the (session, message) pair of an assistant update,
  nothing for any other event. \<open>slotsOf\<close> collects the pairs of a stream, \<open>idsOf\<close> the
  message identifiers among them of one session, and \<open>keyOf\<close> is the key of a pair.
\<close>

fun slotOf :: "Event \<Rightarrow> (string \<times> string) option" where
  "slotOf (MessageUpdated msg) =
     (if role msg = ''assistant'' then Some (sessionID msg, msg_id msg) else None)"
| "slotOf (OtherEvent ty) = None"

definition slotsOf :: "(nat \<times> Event) list \<Rightarrow> (string \<times> string) set" where
  "slotsOf evs = {p. \<exists>te \<in> set evs. slotOf (snd te) = Some p}"

definition keyOf :: "string \<times> string \<Rightarrow> string" where
  "keyOf p = messageKey (fst p) (snd p)"

definition idsOf :: "(string \<times> string) set \<Rightarrow> string \<Rightarrow> string set" where
  "idsOf H sid = {m. (sid, m) \<in> H}"

text \<open>The \<open>messages\<close> counter of a session, 0 when the session has no record.\<close>

definition sessionMessages :: "PluginState \<Rightarrow> string \<Rightarrow> int" where
  "sessionMessages st sid = (case sessions st sid of None \<Rightarrow> 0 | Some s \<Rightarrow> messages s)"

subsection \<open>JavaScript numbers that may be non-finite\<close>

text \<open>
  A finite number (a real; there is one zero), an infinity, or NaN. Every finite double
  is such a real, and the relational operators compare doubles as the reals they are.
\<close>

datatype jsnum = Fin real | PosInf | NegInf | NaN

definition isNaN :: "jsnum \<Rightarrow> bool" where
  "isNaN x = (x = NaN)"

text \<open>The relational operators \<^verbatim>\<open>>\<close> and \<^verbatim>\<open><=\<close>: false whenever an operand is NaN.\<close>

fun js_gt :: "jsnum \<Rightarrow> jsnum \<Rightarrow> bool" where
  "js_gt NaN y = False"
| "js_gt x NaN = False"
| "js_gt (Fin a) (Fin b) = (a > b)"
| "js_gt PosInf PosInf = False"
| "js_gt PosInf y = True"
| "js_gt x PosInf = False"
| "js_gt NegInf y = False"
| "js_gt (Fin a) NegInf = True"

fun js_le :: "jsnum \<Rightarrow> jsnum \<Rightarrow> bool" where
  "js_le NaN y = False"
| "js_le x NaN = False"
| "js_le (Fin a) (Fin b) = (a \<le> b)"
| "js_le x PosInf = True"
| "js_le NegInf y = True"
| "js_le PosInf y = False"
| "js_le (Fin a) NegInf = False"

text \<open>The sign of a number that is not NaN, and the infinity of a given sign.\<close>

fun js_sign :: "jsnum \<Rightarrow> real" where
  "js_sign (Fin a) = sgn a"
| "js_sign PosInf = 1"
| "js_sign NegInf = - 1"
| "js_sign NaN = 0"

definition js_inf :: "real \<Rightarrow> jsnum" where
  "js_inf sg = (if sg > 0 then PosInf else if sg < 0 then NegInf else NaN)"

text \<open>Multiplication: zero times an infinity is NaN.\<close>

fun js_mul :: "jsnum \<Rightarrow> jsnum \<Rightarrow> jsnum" where
  "js_mul NaN y = NaN"
| "js_mul x NaN = NaN"
| "js_mul (Fin a) (Fin b) = Fin (a * b)"
| "js_mul x y = js_inf (js_sign x * js_sign y)"

text \<open>
  Rounding of a real to the nearest double (IEEE 754 binary64, ties to even). \<open>binade\<close>
  is the exponent \<open>e\<close> with \<open>2 ^ e \<le> x < 2 ^ (e + 1)\<close>, kept within -1022 (below which
  doubles are subnormal) and 1024 (where they overflow); a double of that binade is a
  multiple of \<open>2 ^ (e - 52)\<close>. A decimal literal of the source denotes \<open>toDouble\<close> of
  its value.
\<close>

definition pow2 :: "int \<Rightarrow> real" where
  "pow2 e = (if 0 \<le> e then 2 ^ nat e else 1 / 2 ^ nat (- e))"

fun expUp :: "nat \<Rightarrow> real \<Rightarrow> int \<Rightarrow> int" where
  "expUp 0 x e = e"
| "expUp (Suc n) x e = (if 2 * pow2 e \<le> x then expUp n x (e + 1) else e)"

fun expDown :: "nat \<Rightarrow> real \<Rightarrow> int \<Rightarrow> int" where
  "expDown 0 x e = e"
| "expDown (Suc n) x e = (if x < pow2 e then expDown n x (e - 1) else e)"

definition binade :: "real \<Rightarrow> int" where
  "binade x = (if 1 \<le> x then expUp 1024 x 0 else expDown 1022 x 0)"

definition roundHalfEven :: "real \<Rightarrow> int" where
  "roundHalfEven q =
     (let n = \<lfloor>q\<rfloor>; f = q - of_int n
      in if f < 1 / 2 then n else if 1 / 2 < f then n + 1 else if even n then n else n + 1)"

definition toDouble :: "real \<Rightarrow> jsnum" where
  "toDouble x =
     (if x = 0 then Fin 0
      else
        let a = \<bar>x\<bar>;
            u = binade a - 52;
            r = of_int (roundHalfEven (a / pow2 u)) * pow2 u
        in if pow2 1024 \<le> r then (if 0 < x then PosInf else NegInf)
           else Fin (if 0 < x then r else - r))"

text \<open>
  Division: an infinity by an infinity and zero by zero are NaN; a finite number by an
  infinity is zero; a non-zero number by (positive) zero is an infinity; the quotient of
  two finite numbers is rounded to the nearest double.
\<close>

fun js_div :: "jsnum \<Rightarrow> jsnum \<Rightarrow> jsnum" where
  "js_div NaN y = NaN"
| "js_div x NaN = NaN"
| "js_div (Fin a) (Fin b) = (if b = 0 then js_inf (sgn a) else toDouble (a / b))"
| "js_div (Fin a) y = Fin 0"
| "js_div x (Fin b) = js_inf (js_sign x * (if b < 0 then - 1 else 1))"
| "js_div x y = NaN"

subsection \<open>Grid intensity\<close>

text \<open>
  \<^verbatim>\<open>parseFloat\<close>, after ECMAScript: leading white space is dropped, then the longest
  prefix that is a \<^verbatim>\<open>StrDecimalLiteral\<close> is read (an optional sign, then
  \<^verbatim>\<open>Infinity\<close> or decimal digits with an optional fraction and an optional exponent);
  what follows the prefix is ignored, and NaN is returned when there is no such prefix.
\<close>

definition isWhiteSpace :: "char \<Rightarrow> bool" where
  "isWhiteSpace c = (of_char c \<in> {9, 10, 11, 12, 13, 32, 160 :: nat})"

definition isDigit :: "char \<Rightarrow> bool" where
  "isDigit c = (48 \<le> (of_char c :: nat) \<and> (of_char c :: nat) \<le> 57)"

text \<open>The value of a string of decimal digits, most significant first.\<close>

definition digitsValue :: "string \<Rightarrow> nat" where
  "digitsValue ds = foldl (\<lambda>acc c. 10 * acc + (of_char c - 48)) 0 ds"

definition isPrefix :: "string \<Rightarrow> string \<Rightarrow> bool" where
  "isPrefix p s = (take (length p) s = p)"

text \<open>The sign in front of a literal or of an exponent, and what follows it.\<close>

fun splitSign :: "string \<Rightarrow> bool \<times> string" where
  "splitSign [] = (False, [])"
| "splitSign (c # cs) =
     (if c = CHR ''-'' then (True, cs) else if c = CHR ''+'' then (False, cs) else (False, c # cs))"

text \<open>The exponent read from what follows the mantissa: 0 when there is no ExponentPart.\<close>

fun exponentOf :: "string \<Rightarrow> int" where
  "exponentOf [] = 0"
| "exponentOf (c # cs) =
     (if c = CHR ''e'' \<or> c = CHR ''E'' then
        (let (neg, r) = splitSign cs; ds = takeWhile isDigit r
         in if ds = [] then 0
            else if neg then - int (digitsValue ds) else int (digitsValue ds))
      else 0)"

definition scale10 :: "real \<Rightarrow> int \<Rightarrow> real" where
  "scale10 x e = (if 0 \<le> e then x * 10 ^ nat e else x / 10 ^ nat (- e))"

definition parseFloat :: "string \<Rightarrow> jsnum" where
  "parseFloat s =
     (let (neg, u) = splitSign (dropWhile isWhiteSpace s)
      in if isPrefix ''Infinity'' u then (if neg then NegInf else PosInf)
         else
           let ip = takeWhile isDigit u;
               r1 = dropWhile isDigit u;
               (fp, r2) = (case r1 of
                             [] \<Rightarrow> ([], r1)
                           | c # cs \<Rightarrow>
                               if c = CHR ''.'' then (takeWhile isDigit cs, dropWhile isDigit cs)
                               else ([], r1))
           in if ip = [] \<and> fp = [] then NaN
              else
                let mag = scale10 (real (digitsValue (ip @ fp))) (exponentOf r2 - int (length fp))
                in Fin (if neg then - mag else mag))"

definition DEFAULT_GRID_INTENSITY :: jsnum where
  "DEFAULT_GRID_INTENSITY = Fin 400"

text \<open>
  \<^verbatim>\<open>getGridIntensity\<close>. The argument is \<^verbatim>\<open>process.env.OPENCODE_CO2_GRID_INTENSITY\<close>:
  \<open>None\<close> when the variable is unset. The empty string is falsy.
\<close>

definition getGridIntensity :: "string option \<Rightarrow> jsnum" where
  "getGridIntensity env =
     (case env of
        None \<Rightarrow> DEFAULT_GRID_INTENSITY
      | Some e \<Rightarrow>
          if e \<noteq> [] then
            (let parsed = parseFloat e
             in if \<not> isNaN parsed \<and> js_gt parsed (Fin 0) then parsed
                else DEFAULT_GRID_INTENSITY)
          else DEFAULT_GRID_INTENSITY)"

subsection \<open>Model classifier\<close>

datatype ModelTier = Small | Medium | Large

text \<open>The own properties of the object literal \<^verbatim>\<open>MODEL_SIZE\<close>.\<close>

definition MODEL_SIZE :: "(string \<times> ModelTier) list" where
  "MODEL_SIZE =
     [(''claude-haiku-4-5'', Small),
      (''claude-sonnet-4-5'', Medium),
      (''claude-sonnet-4'', Medium),
      (''claude-opus-4'', Large),
      (''gpt-4o-mini'', Small),
      (''gpt-4.1-mini'', Small),
      (''gpt-4.1-nano'', Small),
      (''gpt-4o'', Medium),
      (''gpt-4.1'', Medium),
      (''o3-mini'', Medium),
      (''o3'', Large),
      (''o4-mini'', Medium),
      (''gemini-2.0-flash'', Small),
      (''gemini-2.5-flash'', Small),
      (''gemini-2.5-pro'', Medium)]"

text \<open>
  \<^verbatim>\<open>MODEL_SIZE\<close> is an ordinary object, so \<^verbatim>\<open>MODEL_SIZE[modelID]\<close> is a property
  read that goes on to the prototype when the object has no own property of that name.
  These are the property names of \<^verbatim>\<open>Object.prototype\<close> in ECMAScript; the value of
  each is a function or an object, hence truthy.
\<close>

definition Object_prototype_names :: "string list" where
  "Object_prototype_names =
     [''constructor'', ''hasOwnProperty'', ''isPrototypeOf'', ''propertyIsEnumerable'',
      ''toLocaleString'', ''toString'', ''valueOf'', ''__proto__'',
      ''__defineGetter__'', ''__defineSetter__'', ''__lookupGetter__'', ''__lookupSetter__'']"

text \<open>
  What \<^verbatim>\<open>classifyModel\<close> returns at run time: one of the three tier strings, or a
  member inherited from \<^verbatim>\<open>Object.prototype\<close> (named by its property name), which is
  no tier string.
\<close>

datatype Classified = Tier ModelTier | Inherited string

text \<open>The property read \<^verbatim>\<open>MODEL_SIZE[k]\<close>: \<open>None\<close> is \<^verbatim>\<open>undefined\<close>.\<close>

definition MODEL_SIZE_get :: "string \<Rightarrow> Classified option" where
  "MODEL_SIZE_get k =
     (case map_of MODEL_SIZE k of
        Some t \<Rightarrow> Some (Tier t)
      | None \<Rightarrow> if k \<in> set Object_prototype_names then Some (Inherited k) else None)"

text \<open>\<^verbatim>\<open>String.prototype.toLowerCase\<close> on 8-bit characters (ASCII and Latin-1 letters).\<close>

definition lowerChar :: "char \<Rightarrow> char" where
  "lowerChar c =
     (let n = (of_char c :: nat)
      in if (65 \<le> n \<and> n \<le> 90) \<or> (192 \<le> n \<and> n \<le> 222 \<and> n \<noteq> 215)
         then char_of (n + 32) else c)"

definition toLowerCase :: "string \<Rightarrow> string" where
  "toLowerCase s = map lowerChar s"

text \<open>\<^verbatim>\<open>String.prototype.includes\<close>: the second string occurs in the first.\<close>

fun str_includes :: "string \<Rightarrow> string \<Rightarrow> bool" where
  "str_includes [] sub = (sub = [])"
| "str_includes (c # cs) sub = (isPrefix sub (c # cs) \<or> str_includes cs sub)"

definition classifyModel :: "string \<Rightarrow> Classified" where
  "classifyModel mID =
     (case MODEL_SIZE_get mID of
        Some v \<Rightarrow> v
      | None \<Rightarrow>
          let id = toLowerCase mID
          in if str_includes id ''haiku'' \<or> str_includes id ''mini'' \<or> str_includes id ''nano''
                \<or> str_includes id ''flash''
             then Tier Small
             else if str_includes id ''opus'' \<or> (str_includes id ''o3'' \<and> \<not> str_includes id ''mini'')
             then Tier Large
             else Tier Medium)"

subsection \<open>Energy and CO2\<close>

fun ENERGY_PER_TOKEN_KWH :: "ModelTier \<Rightarrow> real" where
  "ENERGY_PER_TOKEN_KWH Small = 0.0000003"
| "ENERGY_PER_TOKEN_KWH Medium = 0.000001"
| "ENERGY_PER_TOKEN_KWH Large = 0.000003"

text \<open>
  The loop of \<^verbatim>\<open>computeCO2\<close> over \<^verbatim>\<open>stats.models\<close>, in insertion order, from the
  class chosen so far; \<^verbatim>\<open>break\<close> at the first large model.
\<close>

fun dominantLoop :: "ModelTier \<Rightarrow> string list \<Rightarrow> ModelTier" where
  "dominantLoop dominantClass [] = dominantClass"
| "dominantLoop dominantClass (mID # rest) =
     (let cls = classifyModel mID
      in if cls = Tier Large then Large
         else if cls = Tier Medium then dominantLoop Medium rest
         else dominantLoop dominantClass rest)"

definition dominantClassOf :: "string list \<Rightarrow> ModelTier" where
  "dominantClassOf ms = dominantLoop Small ms"

record CO2 =
  totalTokens :: int
  energyKwh :: real
  co2Grams :: jsnum

definition computeCO2 :: "string option \<Rightarrow> SessionStats \<Rightarrow> CO2" where
  "computeCO2 env stats =
     (let gridIntensity = getGridIntensity env;
          total = inputTokens stats + outputTokens stats + reasoningTokens stats;
          energyPerToken = ENERGY_PER_TOKEN_KWH (dominantClassOf (models stats));
          energy = real_of_int total * energyPerToken
      in \<lparr> totalTokens = total, energyKwh = energy,
           co2Grams = js_mul (Fin energy) gridIntensity \<rparr>)"

subsection \<open>Eco grade\<close>

record EcoGrade =
  grade :: string
  label :: string
  level :: nat
  tip :: string

definition ECO_THRESHOLDS :: "(jsnum \<times> EcoGrade) list" where
  "ECO_THRESHOLDS =
     [(toDouble 0.1, \<lparr> grade = ''A+'', label = ''Exemplary'', level = 1,
          tip = ''Your session is incredibly efficient. Keep it up!'' \<rparr>),
      (toDouble 0.3, \<lparr> grade = ''A'', label = ''Excellent'', level = 2,
          tip = ''Great efficiency! Small models and focused prompts pay off.'' \<rparr>),
      (toDouble 0.8, \<lparr> grade = ''B'', label = ''Good'', level = 3,
          tip = ''Solid session. Consider using smaller models for simpler tasks.'' \<rparr>),
      (toDouble 1.5, \<lparr> grade = ''B-'', label = ''Above Average'', level = 4,
          tip = ''Not bad! Try batching questions to reduce message overhead.'' \<rparr>),
      (toDouble 3.0, \<lparr> grade = ''C'', label = ''Moderate'', level = 6,
          tip = ''Consider using a smaller model for routine tasks to cut emissions.'' \<rparr>),
      (toDouble 6.0, \<lparr> grade = ''D'', label = ''High Impact'', level = 8,
          tip = ''This session is carbon-heavy. Smaller models can reduce your footprint by up to 10x.'' \<rparr>),
      (PosInf, \<lparr> grade = ''F'', label = ''Very High Impact'', level = 10,
          tip = ''Consider breaking work into smaller sessions and using efficient models.'' \<rparr>)]"

text \<open>The \<^verbatim>\<open>for\<close> loop of \<^verbatim>\<open>getEcoGrade\<close>: \<open>None\<close> when it runs to its end.\<close>

fun gradeLoop :: "jsnum \<Rightarrow> (jsnum \<times> EcoGrade) list \<Rightarrow> EcoGrade option" where
  "gradeLoop perMsg [] = None"
| "gradeLoop perMsg ((maxPerMsg, g) # ts) =
     (if js_le perMsg maxPerMsg then Some g else gradeLoop perMsg ts)"

definition perMessage :: "jsnum \<Rightarrow> int \<Rightarrow> jsnum" where
  "perMessage co2 msgs = (if msgs > 0 then js_div co2 (Fin (real_of_int msgs)) else Fin 0)"

definition getEcoGrade :: "jsnum \<Rightarrow> int \<Rightarrow> EcoGrade" where
  "getEcoGrade co2 msgs =
     (case gradeLoop (perMessage co2 msgs) ECO_THRESHOLDS of
        Some g \<Rightarrow> g
      | None \<Rightarrow> snd (ECO_THRESHOLDS ! (length ECO_THRESHOLDS - 1)))"

section \<open>Properties\<close>

subsection \<open>Idempotence of a repeated update\<close>

lemma set_add_idem: "set_add x (set_add x xs) = set_add x xs"
  by (simp add: set_add_def)

lemma accumulate_again:
  "accumulate (accumulate stats prev isNew msg) (snapshotOf msg) False msg
     = accumulate stats prev isNew msg"
  by (simp add: accumulate_def snapshotOf_def set_add_idem)

text \<open>
  Claim C1. Applying the identical update event twice in a row leaves the whole plugin
  state (every field of every SessionStats, and every stored snapshot) as it is after
  applying it once, whatever the state before and whatever the clock shows.
\<close>

theorem event_twice_same_as_once:
  "event now2 ev (event now1 ev st) = event now1 ev st"
proof (cases ev)
  case (OtherEvent ty)
  then show ?thesis by (simp add: event_def)
next
  case (MessageUpdated msg)
  show ?thesis
  proof (cases "role msg = ''assistant''")
    case False
    with MessageUpdated show ?thesis by (simp add: event_def)
  next
    case True
    with MessageUpdated show ?thesis
      by (simp add: event_def Let_def accumulate_again)
  qed
qed

subsection \<open>One step of the accumulator\<close>

lemma event_assistant:
  "role msg = ''assistant'' \<Longrightarrow>
   event now (MessageUpdated msg) st =
     \<lparr> sessions = (sessions st)(sessionID msg \<mapsto>
          accumulate (statsBefore now st (sessionID msg))
            (priorSnapshot st (sessionID msg) (msg_id msg))
            (messageSnapshots st (messageKey (sessionID msg) (msg_id msg)) = None) msg),
       messageSnapshots =
         (messageSnapshots st)(messageKey (sessionID msg) (msg_id msg) \<mapsto> snapshotOf msg) \<rparr>"
  by (simp add: event_def Let_def statsBefore_def priorSnapshot_def)

lemma step_delta:
  assumes "role msg = ''assistant''"
    and "s = statsBefore now st (sessionID msg)"
    and "p = priorSnapshot st (sessionID msg) (msg_id msg)"
  shows "\<exists>s'. sessions (event now (MessageUpdated msg) st) (sessionID msg) = Some s' \<and>
            inputTokens s' = inputTokens s + (tokens_input msg - snap_input p) \<and>
            outputTokens s' = outputTokens s + (tokens_output msg - snap_output p) \<and>
            reasoningTokens s' = reasoningTokens s + (tokens_reasoning msg - snap_reasoning p) \<and>
            cacheReadTokens s' = cacheReadTokens s + (tokens_cache_read msg - snap_cacheRead p) \<and>
            cacheWriteTokens s' = cacheWriteTokens s + (tokens_cache_write msg - snap_cacheWrite p) \<and>
            cost s' = cost s + (msg_cost msg - snap_cost p)"
  using assms by (simp add: event_assistant accumulate_def)

lemma three_updates:
  assumes "role ma = ''assistant''" "role mb = ''assistant''" "role mc = ''assistant''"
    and "sessionID ma = sid" "sessionID mb = sid" "sessionID mc = sid"
    and "msg_id ma = mid" "msg_id mb = mid" "msg_id mc = mid"
    and "tokens_input ma = 0" "tokens_input mb = 50" "tokens_input mc = 120"
    and "sa = event ta (MessageUpdated ma) st"
    and "sb = event tb (MessageUpdated mb) sa"
    and "sc = event tc (MessageUpdated mc) sb"
  shows "sessionInput sb sid = sessionInput sa sid + 50 \<and>
         sessionInput sc sid = sessionInput sb sid + 70"
  using assms
  by (simp add: event_assistant sessionInput_def accumulate_def snapshotOf_def
        statsBefore_def priorSnapshot_def)

text \<open>
  Three assistant updates of one message applied in succession to any state, with
  cumulative input tokens 0, 50 and 120: the session's input total grows by exactly 50
  at the second and by exactly 70 at the third. And for any assistant update \<open>msg\<close> in
  any state \<open>st\<close>, each of the five token totals and the cost total of the session
  becomes its value before plus (current field minus the field of the stored prior
  snapshot), the prior being all-zero when none is stored.
\<close>

lemma delta_in_succession:
  assumes "role ma = ''assistant''" "role mb = ''assistant''" "role mc = ''assistant''"
    and "sessionID ma = sid" "sessionID mb = sid" "sessionID mc = sid"
    and "msg_id ma = mid" "msg_id mb = mid" "msg_id mc = mid"
    and "tokens_input ma = 0" "tokens_input mb = 50" "tokens_input mc = 120"
    and "sa = event ta (MessageUpdated ma) st0"
    and "sb = event tb (MessageUpdated mb) sa"
    and "sc = event tc (MessageUpdated mc) sb"
    and "role msg = ''assistant''"
    and "s = statsBefore now st (sessionID msg)"
    and "p = priorSnapshot st (sessionID msg) (msg_id msg)"
  shows "sessionInput sb sid = sessionInput sa sid + 50 \<and>
         sessionInput sc sid = sessionInput sb sid + 70 \<and>
         (messageSnapshots st (messageKey (sessionID msg) (msg_id msg)) = None
            \<longrightarrow> p = zeroSnapshot) \<and>
         (\<exists>s'. sessions (event now (MessageUpdated msg) st) (sessionID msg) = Some s' \<and>
            inputTokens s' = inputTokens s + (tokens_input msg - snap_input p) \<and>
            outputTokens s' = outputTokens s + (tokens_output msg - snap_output p) \<and>
            reasoningTokens s' = reasoningTokens s + (tokens_reasoning msg - snap_reasoning p) \<and>
            cacheReadTokens s' = cacheReadTokens s + (tokens_cache_read msg - snap_cacheRead p) \<and>
            cacheWriteTokens s' = cacheWriteTokens s + (tokens_cache_write msg - snap_cacheWrite p) \<and>
            cost s' = cost s + (msg_cost msg - snap_cost p))"
proof -
  have scenario: "sessionInput sb sid = sessionInput sa sid + 50 \<and>
      sessionInput sc sid = sessionInput sb sid + 70"
    using assms(1-15) by (rule three_updates)
  have zero: "messageSnapshots st (messageKey (sessionID msg) (msg_id msg)) = None
      \<longrightarrow> p = zeroSnapshot"
    using assms(18) by (simp add: priorSnapshot_def)
  from scenario zero step_delta [OF assms(16-18)] show ?thesis by blast
qed

text \<open>
  The scenario on the empty state: the input total of the session reads 0, 50, 120
  after the three updates.
\<close>

lemma delta_in_succession_example:
  "sessionInput (run [(1, assistantUpdate ''ses'' ''msg'' (usage 0))] initialState) ''ses'' = 0 \<and>
   sessionInput (run [(1, assistantUpdate ''ses'' ''msg'' (usage 0)),
                      (2, assistantUpdate ''ses'' ''msg'' (usage 50))] initialState) ''ses'' = 50 \<and>
   sessionInput (run [(1, assistantUpdate ''ses'' ''msg'' (usage 0)),
                      (2, assistantUpdate ''ses'' ''msg'' (usage 50)),
                      (3, assistantUpdate ''ses'' ''msg'' (usage 120))] initialState) ''ses'' = 120"
proof -
  let ?ma = "(usage 0)\<lparr> sessionID := ''ses'', msg_id := ''msg'', role := ''assistant'' \<rparr>"
  let ?mb = "(usage 50)\<lparr> sessionID := ''ses'', msg_id := ''msg'', role := ''assistant'' \<rparr>"
  let ?mc = "(usage 120)\<lparr> sessionID := ''ses'', msg_id := ''msg'', role := ''assistant'' \<rparr>"
  let ?sa = "event 1 (MessageUpdated ?ma) initialState"
  let ?sb = "event 2 (MessageUpdated ?mb) ?sa"
  let ?sc = "event 3 (MessageUpdated ?mc) ?sb"
  have first: "sessionInput ?sa ''ses'' = 0"
    by (simp add: event_def Let_def usage_def initialState_def sessionInput_def
          accumulate_def newSessionStats_def zeroSnapshot_def)
  have "sessionInput ?sb ''ses'' = sessionInput ?sa ''ses'' + 50 \<and>
        sessionInput ?sc ''ses'' = sessionInput ?sb ''ses'' + 70"
    using delta_in_succession [of ?ma ?mb ?mc "''ses''" "''msg''" ?sa 1 initialState ?sb 2 ?sc 3
        ?ma "statsBefore 1 initialState ''ses''" 1 initialState
        "priorSnapshot initialState ''ses'' ''msg''"]
    by (simp add: usage_def)
  with first show ?thesis by (simp add: assistantUpdate_def)
qed

text \<open>
  Claim C9. An assistant update that carries, in some field, a cumulative value
  strictly smaller than the stored prior snapshot's: the (negative) difference is added
  as it is, and the session's running total of that field after the update is strictly
  smaller than before it. Nothing is rejected or clamped.
\<close>

theorem nonmonotonic_update_decreases_total:
  assumes "role msg = ''assistant''"
    and "messageSnapshots st (messageKey (sessionID msg) (msg_id msg)) = Some p"
    and "s = statsBefore now st (sessionID msg)"
  shows "\<exists>s'. sessions (event now (MessageUpdated msg) st) (sessionID msg) = Some s' \<and>
     (tokens_input msg < snap_input p \<longrightarrow>
        inputTokens s' = inputTokens s + (tokens_input msg - snap_input p) \<and>
        inputTokens s' < inputTokens s) \<and>
     (tokens_output msg < snap_output p \<longrightarrow>
        outputTokens s' = outputTokens s + (tokens_output msg - snap_output p) \<and>
        outputTokens s' < outputTokens s) \<and>
     (tokens_reasoning msg < snap_reasoning p \<longrightarrow>
        reasoningTokens s' = reasoningTokens s + (tokens_reasoning msg - snap_reasoning p) \<and>
        reasoningTokens s' < reasoningTokens s) \<and>
     (tokens_cache_read msg < snap_cacheRead p \<longrightarrow>
        cacheReadTokens s' = cacheReadTokens s + (tokens_cache_read msg - snap_cacheRead p) \<and>
        cacheReadTokens s' < cacheReadTokens s) \<and>
     (tokens_cache_write msg < snap_cacheWrite p \<longrightarrow>
        cacheWriteTokens s' = cacheWriteTokens s + (tokens_cache_write msg - snap_cacheWrite p) \<and>
        cacheWriteTokens s' < cacheWriteTokens s) \<and>
     (msg_cost msg < snap_cost p \<longrightarrow>
        cost s' = cost s + (msg_cost msg - snap_cost p) \<and> cost s' < cost s)"
  using assms by (simp add: event_assistant accumulate_def priorSnapshot_def)

text \<open>
  A message reported with 200 input tokens and then with 150: the session's input total
  goes from 200 down to 150.
\<close>

theorem nonmonotonic_update_decreases_total_witness:
  "sessionInput (run [(1, assistantUpdate ''ses'' ''msg'' (usage 200))] initialState) ''ses'' = 200 \<and>
   sessionInput (run [(1, assistantUpdate ''ses'' ''msg'' (usage 200)),
                      (2, assistantUpdate ''ses'' ''msg'' (usage 150))] initialState) ''ses'' = 150"
proof -
  let ?ma = "(usage 200)\<lparr> sessionID := ''ses'', msg_id := ''msg'', role := ''assistant'' \<rparr>"
  let ?mb = "(usage 150)\<lparr> sessionID := ''ses'', msg_id := ''msg'', role := ''assistant'' \<rparr>"
  let ?sa = "event 1 (MessageUpdated ?ma) initialState"
  have snap: "messageSnapshots ?sa (messageKey (sessionID ?mb) (msg_id ?mb)) = Some (snapshotOf ?ma)"
    by (simp add: event_def Let_def usage_def)
  have before: "sessionInput ?sa ''ses'' = 200"
    by (simp add: event_def Let_def usage_def initialState_def sessionInput_def
          accumulate_def newSessionStats_def zeroSnapshot_def)
  have stats: "inputTokens (statsBefore 2 ?sa (sessionID ?mb)) = 200"
    using before by (simp add: statsBefore_def sessionInput_def event_def Let_def usage_def)
  have "role ?mb = ''assistant''" by simp
  from nonmonotonic_update_decreases_total [OF this snap refl, of 2]
  obtain s' where s': "sessions (event 2 (MessageUpdated ?mb) ?sa) (sessionID ?mb) = Some s'"
    and "tokens_input ?mb < snap_input (snapshotOf ?ma) \<longrightarrow>
        inputTokens s' = inputTokens (statsBefore 2 ?sa (sessionID ?mb))
           + (tokens_input ?mb - snap_input (snapshotOf ?ma))"
    by blast
  then have "inputTokens s' = 150"
    using stats by (simp add: usage_def snapshotOf_def)
  with s' have "sessionInput (event 2 (MessageUpdated ?mb) ?sa) ''ses'' = 150"
    by (simp add: sessionInput_def)
  with before show ?thesis by (simp add: assistantUpdate_def)
qed

text \<open>
  Claim C10. An update event whose role is not \<^verbatim>\<open>"assistant"\<close> changes nothing: the
  plugin state after it (every SessionStats and every stored snapshot) is the state
  before it.
\<close>

theorem non_assistant_update_is_noop:
  "role msg \<noteq> ''assistant'' \<Longrightarrow> event now (MessageUpdated msg) st = st"
  by (simp add: event_def)

text \<open>A user message after an assistant message leaves the state of the run as it was.\<close>

theorem non_assistant_update_is_noop_witness:
  "run [(1, assistantUpdate ''ses'' ''msg'' (usage 200)),
        (2, MessageUpdated ((usage 999)\<lparr> sessionID := ''ses'', role := ''user'' \<rparr>))] initialState
   = run [(1, assistantUpdate ''ses'' ''msg'' (usage 200))] initialState"
  using non_assistant_update_is_noop
    [of "(usage 999)\<lparr> sessionID := ''ses'', role := ''user'' \<rparr>" 2
        "event 1 (assistantUpdate ''ses'' ''msg'' (usage 200)) initialState"]
  by simp

subsection \<open>The snapshot key\<close>

lemma messageKey_same_session: "messageKey sid m1 = messageKey sid m2 \<longleftrightarrow> m1 = m2"
  by (simp add: messageKey_def)

lemma colon_split_unique:
  "CHR '':'' \<notin> set s1 \<Longrightarrow> CHR '':'' \<notin> set s2 \<Longrightarrow>
   s1 @ CHR '':'' # m1 = s2 @ CHR '':'' # m2 \<Longrightarrow> s1 = s2 \<and> m1 = m2"
proof (induction s1 arbitrary: s2)
  case Nil
  then show ?case by (cases s2) auto
next
  case (Cons a s1)
  then show ?case by (cases s2) auto
qed

text \<open>The key tells pairs apart as long as the session identifiers hold no colon.\<close>

lemma messageKey_inj_without_colon:
  "CHR '':'' \<notin> set s1 \<Longrightarrow> CHR '':'' \<notin> set s2 \<Longrightarrow>
   messageKey s1 m1 = messageKey s2 m2 \<Longrightarrow> s1 = s2 \<and> m1 = m2"
  using colon_split_unique [of s1 s2 m1 m2] by (simp add: messageKey_def)

text \<open>
  Claim C4. The claim is that distinct (session, message) pairs never share a snapshot
  slot, also when an identifier holds a colon. The source joins the two identifiers with
  a colon, so the pairs (a, b:c) and (a:b, c) are distinct and have the same key a:b:c:
  after an update of message c of session a:b with 1000 input tokens, the first update
  of message b:c of session a (50 input tokens) is taken for a later update of a known
  message, its delta is computed against the other pair's snapshot (50 - 1000), and it
  overwrites that snapshot.
\<close>

theorem messageKey_collision:
  "(''a'', ''b:c'') \<noteq> (''a:b'', ''c'') \<and>
   messageKey ''a'' ''b:c'' = messageKey ''a:b'' ''c'' \<and>
   priorSnapshot (run [(1, assistantUpdate ''a:b'' ''c'' (usage 1000))] initialState) ''a'' ''b:c''
     = snapshotOf (usage 1000) \<and>
   sessionInput (run [(1, assistantUpdate ''a:b'' ''c'' (usage 1000)),
                      (2, assistantUpdate ''a'' ''b:c'' (usage 50))] initialState) ''a'' = - 950 \<and>
   priorSnapshot (run [(1, assistantUpdate ''a:b'' ''c'' (usage 1000)),
                       (2, assistantUpdate ''a'' ''b:c'' (usage 50))] initialState) ''a:b'' ''c''
     = snapshotOf (usage 50)"
  by (simp add: assistantUpdate_def usage_def event_def initialState_def messageKey_def
        newSessionStats_def accumulate_def snapshotOf_def set_add_def Let_def
        priorSnapshot_def sessionInput_def zeroSnapshot_def)

subsection \<open>The message counter\<close>

lemma slotsOf_Nil: "slotsOf [] = {}"
  by (simp add: slotsOf_def)

lemma slotsOf_Cons:
  "slotsOf ((t, e) # evs) = (case slotOf e of None \<Rightarrow> slotsOf evs | Some p \<Rightarrow> insert p (slotsOf evs))"
  by (auto simp: slotsOf_def split: option.splits)

lemma finite_idsOf: "finite H \<Longrightarrow> finite (idsOf H sid)"
proof -
  assume "finite H"
  then have "finite (snd ` H)" by simp
  moreover have "idsOf H sid \<subseteq> snd ` H" by (force simp: idsOf_def)
  ultimately show ?thesis by (rule rev_finite_subset)
qed

lemma idsOf_insert:
  "idsOf (insert (s, m) H) sid = (if sid = s then insert m (idsOf H sid) else idsOf H sid)"
  by (auto simp: idsOf_def)

lemma event_no_slot: "slotOf e = None \<Longrightarrow> event now e st = st"
  by (cases e) (simp_all add: event_def split: if_splits)

lemma messages_statsBefore: "messages (statsBefore now st sid) = sessionMessages st sid"
  by (simp add: statsBefore_def sessionMessages_def newSessionStats_def split: option.splits)

lemma count_step:
  assumes inj: "inj_on keyOf U"
    and HU: "H \<subseteq> U" and fin: "finite H"
    and snaps: "\<forall>p\<in>U. (messageSnapshots st (keyOf p) \<noteq> None) = (p \<in> H)"
    and cnt: "\<forall>s. sessionMessages st s = int (card (idsOf H s))"
    and slot: "slotOf e = Some p" and pU: "p \<in> U"
    and st': "st' = event now e st"
  shows "(\<forall>q\<in>U. (messageSnapshots st' (keyOf q) \<noteq> None) = (q \<in> insert p H)) \<and>
         (\<forall>s. sessionMessages st' s = int (card (idsOf (insert p H) s)))"
proof -
  obtain msg where e: "e = MessageUpdated msg" and r: "role msg = ''assistant''"
    and p: "p = (sessionID msg, msg_id msg)"
    using slot by (cases e) (auto split: if_splits)
  have key: "messageKey (sessionID msg) (msg_id msg) = keyOf p"
    by (simp add: keyOf_def p)
  have new: "(messageSnapshots st (keyOf p) = None) = (p \<notin> H)"
    using snaps pU by blast
  have a: "\<forall>q\<in>U. (messageSnapshots st' (keyOf q) \<noteq> None) = (q \<in> insert p H)"
  proof
    fix q assume q: "q \<in> U"
    have "(keyOf q = keyOf p) = (q = p)"
      using inj q pU by (auto dest: inj_onD)
    then show "(messageSnapshots st' (keyOf q) \<noteq> None) = (q \<in> insert p H)"
      using snaps q by (simp add: st' e event_assistant r key)
  qed
  have b: "\<forall>s. sessionMessages st' s = int (card (idsOf (insert p H) s))"
  proof
    fix s
    show "sessionMessages st' s = int (card (idsOf (insert p H) s))"
    proof (cases "s = sessionID msg")
      case False
      then have "idsOf (insert p H) s = idsOf H s" by (simp add: p idsOf_insert)
      moreover have "sessionMessages st' s = sessionMessages st s"
        using False by (simp add: st' e event_assistant r sessionMessages_def)
      ultimately show ?thesis using cnt by simp
    next
      case True
      have before: "messages (statsBefore now st s) = int (card (idsOf H s))"
        using cnt by (simp add: messages_statsBefore)
      have ids: "idsOf (insert p H) s = insert (msg_id msg) (idsOf H s)"
        using True by (simp add: p idsOf_insert)
      have mem: "(msg_id msg \<in> idsOf H s) = (p \<in> H)"
        using True by (simp add: idsOf_def p)
      have fin': "finite (idsOf H s)" using fin by (rule finite_idsOf)
      have m': "sessionMessages st' s
          = messages (statsBefore now st s) + (if p \<in> H then 0 else 1)"
        using True new
        by (simp add: st' e event_assistant r key accumulate_def sessionMessages_def)
      have c': "card (idsOf (insert p H) s)
          = (if p \<in> H then card (idsOf H s) else Suc (card (idsOf H s)))"
        unfolding ids using mem fin' by (simp add: insert_absorb)
      show ?thesis unfolding m' c' before by simp
    qed
  qed
  from a b show ?thesis by blast
qed

lemma count_run:
  assumes "inj_on keyOf U" "H \<subseteq> U" "finite H" "slotsOf evs \<subseteq> U"
    and "\<forall>p\<in>U. (messageSnapshots st (keyOf p) \<noteq> None) = (p \<in> H)"
    and "\<forall>s. sessionMessages st s = int (card (idsOf H s))"
  shows "\<forall>s. sessionMessages (run evs st) s = int (card (idsOf (H \<union> slotsOf evs) s))"
  using assms
proof (induction evs arbitrary: st H)
  case Nil
  then show ?case by (simp add: slotsOf_Nil)
next
  case (Cons te evs)
  obtain t e where te: "te = (t, e)" by (cases te)
  show ?case
  proof (cases "slotOf e")
    case None
    then have same: "event t e st = st" by (rule event_no_slot)
    have sl: "slotsOf ((t, e) # evs) = slotsOf evs" using None by (simp add: slotsOf_Cons)
    with Cons.prems(4) have rest: "slotsOf evs \<subseteq> U" by (simp add: te)
    from Cons.IH [OF Cons.prems(1) Cons.prems(2) Cons.prems(3) rest Cons.prems(5) Cons.prems(6)]
    show ?thesis by (simp add: te same sl)
  next
    case (Some p)
    have sl: "slotsOf ((t, e) # evs) = insert p (slotsOf evs)"
      using Some by (simp add: slotsOf_Cons)
    then have pU: "p \<in> U" and rest: "slotsOf evs \<subseteq> U"
      using Cons.prems(4) by (auto simp: te)
    from count_step [OF Cons.prems(1) Cons.prems(2) Cons.prems(3) Cons.prems(5) Cons.prems(6)
        Some pU refl, of t]
    have s1: "\<forall>q\<in>U. (messageSnapshots (event t e st) (keyOf q) \<noteq> None) = (q \<in> insert p H)"
      and s2: "\<forall>s. sessionMessages (event t e st) s = int (card (idsOf (insert p H) s))"
      by blast+
    have HU: "insert p H \<subseteq> U" using pU Cons.prems(2) by simp
    have fin: "finite (insert p H)" using Cons.prems(3) by simp
    from Cons.IH [OF Cons.prems(1) HU fin rest s1 s2]
    show ?thesis by (simp add: te sl)
  qed
qed

text \<open>
  Where the pairs of a stream have pairwise distinct keys, every session's counter is the
  number of distinct message identifiers that received an assistant update in it, however
  often each was updated and however the sessions interleave.
\<close>

lemma messages_exact_without_collision:
  assumes "inj_on keyOf (slotsOf evs)"
  shows "sessionMessages (run evs initialState) sid = int (card (idsOf (slotsOf evs) sid))"
proof -
  have "\<forall>s. sessionMessages (run evs initialState) s
           = int (card (idsOf ({} \<union> slotsOf evs) s))"
    by (rule count_run [OF assms])
       (simp_all add: initialState_def idsOf_def sessionMessages_def)
  then show ?thesis by simp
qed

lemma keyOf_inj_colon_free:
  assumes "\<forall>p\<in>P. CHR '':'' \<notin> set (fst p)"
  shows "inj_on keyOf P"
proof (rule inj_onI)
  fix p q assume "p \<in> P" "q \<in> P" "keyOf p = keyOf q"
  with assms have "fst p = fst q \<and> snd p = snd q"
    unfolding keyOf_def by (intro messageKey_inj_without_colon) auto
  then show "p = q" by (simp add: prod_eq_iff)
qed

lemma keyOf_inj_one_session:
  assumes "\<forall>p\<in>P. fst p = sid"
  shows "inj_on keyOf P"
proof (rule inj_onI)
  fix p q assume "p \<in> P" "q \<in> P" "keyOf p = keyOf q"
  with assms show "p = q"
    by (auto simp: keyOf_def messageKey_same_session prod_eq_iff)
qed

lemma messages_exact_colon_free:
  assumes "\<forall>p\<in>slotsOf evs. CHR '':'' \<notin> set (fst p)"
  shows "sessionMessages (run evs initialState) sid = int (card (idsOf (slotsOf evs) sid))"
  using assms by (intro messages_exact_without_collision keyOf_inj_colon_free)

lemma messages_exact_one_session:
  assumes "\<forall>p\<in>slotsOf evs. fst p = sid"
  shows "sessionMessages (run evs initialState) sid = int (card (idsOf (slotsOf evs) sid))"
  using assms by (intro messages_exact_without_collision keyOf_inj_one_session)

text \<open>
  Claim C3. The claim is that a session's \<open>messages\<close> counter equals the number of
  distinct message ids that received an assistant update in it. Session a receives one
  update of one message, b:c, and its counter stays 0: the snapshot entry under the key
  a:b:c was made before by message c of session a:b, so the update does not count as
  new. (The same defect as in claim C4.)
\<close>

theorem messages_miscounted_on_key_collision:
  "map_option messages
     (sessions (run [(1, assistantUpdate ''a:b'' ''c'' (usage 1000)),
                     (2, assistantUpdate ''a'' ''b:c'' (usage 50))] initialState) ''a'') = Some 0 \<and>
   map_option messages
     (sessions (run [(2, assistantUpdate ''a'' ''b:c'' (usage 50))] initialState) ''a'') = Some 1"
  by (simp add: assistantUpdate_def usage_def event_def initialState_def messageKey_def
        newSessionStats_def accumulate_def snapshotOf_def set_add_def Let_def)

subsection \<open>Deltas between the updates of a message\<close>

text \<open>An event leaves every snapshot slot other than its own as it is.\<close>

lemma event_keeps_other_slots:
  assumes "\<forall>p. slotOf e = Some p \<longrightarrow> keyOf p \<noteq> k"
  shows "messageSnapshots (event now e st) k = messageSnapshots st k"
proof (cases "slotOf e")
  case None
  then show ?thesis by (simp add: event_no_slot)
next
  case (Some p)
  then obtain msg where e: "e = MessageUpdated msg" and r: "role msg = ''assistant''"
    and p: "p = (sessionID msg, msg_id msg)"
    by (cases e) (auto split: if_splits)
  from assms Some have "keyOf p \<noteq> k" by blast
  then show ?thesis by (simp add: e event_assistant r p keyOf_def)
qed

lemma run_keeps_other_slots:
  assumes "\<forall>p\<in>slotsOf evs. keyOf p \<noteq> k"
  shows "messageSnapshots (run evs st) k = messageSnapshots st k"
  using assms
proof (induction evs arbitrary: st)
  case Nil
  then show ?case by simp
next
  case (Cons te evs)
  obtain t e where te: "te = (t, e)" by (cases te)
  have here: "\<forall>p. slotOf e = Some p \<longrightarrow> keyOf p \<noteq> k"
    using Cons.prems by (auto simp: te slotsOf_Cons)
  have rest: "\<forall>p\<in>slotsOf evs. keyOf p \<noteq> k"
    using Cons.prems by (auto simp: te slotsOf_Cons split: option.splits)
  show ?case
    using Cons.IH [OF rest, of "event t e st"] event_keeps_other_slots [OF here, of t st]
    by (simp add: te)
qed

lemma inputTokens_statsBefore: "inputTokens (statsBefore now st sid) = sessionInput st sid"
  by (simp add: statsBefore_def sessionInput_def newSessionStats_def split: option.splits)

text \<open>
  Where no event between two updates of a message writes the slot of that message, the
  second update adds to the session's input total exactly the growth of the message's
  cumulative value since the first.
\<close>

lemma delta_between_updates:
  assumes "role ma = ''assistant''" "role mb = ''assistant''"
    and "sessionID ma = sid" "sessionID mb = sid"
    and "msg_id ma = mid" "msg_id mb = mid"
    and "\<forall>p\<in>slotsOf evs. keyOf p \<noteq> messageKey sid mid"
    and "sa = run evs (event ta (MessageUpdated ma) st)"
  shows "sessionInput (event tb (MessageUpdated mb) sa) sid
           = sessionInput sa sid + (tokens_input mb - tokens_input ma)"
proof -
  have "messageSnapshots sa (messageKey sid mid) = Some (snapshotOf ma)"
    using assms by (simp add: run_keeps_other_slots event_assistant)
  then have "priorSnapshot sa sid mid = snapshotOf ma"
    by (simp add: priorSnapshot_def)
  then show ?thesis
    using assms(2,4,6)
    by (simp add: event_assistant sessionInput_def accumulate_def snapshotOf_def
          inputTokens_statsBefore [unfolded sessionInput_def])
qed

text \<open>
  Claim C2. The claim is that a message whose successive updates carry the cumulative
  input tokens 0, 50 and 120 adds exactly 50 to its session's input total at the second
  update. Message c of session a:b is updated with 0 input tokens, then message b:c of
  session a with 1000, then message c of session a:b with 50: the second pair has the
  key of the first, a:b:c, so the delta of the last update is computed against the other
  message's snapshot and the input total of session a:b changes by 50 - 1000, not by
  50. (The same defect as in claim C4.)
\<close>

theorem delta_misread_on_key_collision:
  "sessionInput (run [(1, assistantUpdate ''a:b'' ''c'' (usage 0))] initialState) ''a:b'' = 0 \<and>
   sessionInput (run [(1, assistantUpdate ''a:b'' ''c'' (usage 0)),
                      (2, assistantUpdate ''a'' ''b:c'' (usage 1000))] initialState) ''a:b'' = 0 \<and>
   sessionInput (run [(1, assistantUpdate ''a:b'' ''c'' (usage 0)),
                      (2, assistantUpdate ''a'' ''b:c'' (usage 1000)),
                      (3, assistantUpdate ''a:b'' ''c'' (usage 50))] initialState) ''a:b'' = - 950"
  by (simp add: assistantUpdate_def usage_def event_def initialState_def messageKey_def
        newSessionStats_def accumulate_def snapshotOf_def set_add_def Let_def
        sessionInput_def zeroSnapshot_def)


subsection \<open>Grid intensity\<close>

lemma parseFloat_empty: "parseFloat [] = NaN"
  by (simp add: parseFloat_def isPrefix_def)

lemma parseFloat_50: "parseFloat ''50'' = Fin 50"
  by code_simp

lemma parseFloat_minus_5: "parseFloat ''-5'' = Fin (- 5)"
  by code_simp

lemma parseFloat_abc: "parseFloat ''abc'' = NaN"
  by code_simp

lemma parseFloat_Infinity: "parseFloat ''Infinity'' = PosInf"
  by code_simp

text \<open>What follows the numeric prefix is ignored, and leading white space is skipped.\<close>

lemma parseFloat_prefix: "parseFloat ''  1.5e2 g/kWh'' = Fin 150"
  by code_simp

lemma getGridIntensity_cases:
  "getGridIntensity env =
     (case env of
        None \<Rightarrow> Fin 400
      | Some e \<Rightarrow>
          (case parseFloat e of
             Fin r \<Rightarrow> if r > 0 then Fin r else Fin 400
           | PosInf \<Rightarrow> PosInf
           | NegInf \<Rightarrow> Fin 400
           | NaN \<Rightarrow> Fin 400))"
proof (cases env)
  case None
  then show ?thesis by (simp add: getGridIntensity_def DEFAULT_GRID_INTENSITY_def)
next
  case (Some e)
  show ?thesis
  proof (cases "e = []")
    case True
    with Some show ?thesis
      by (simp add: getGridIntensity_def DEFAULT_GRID_INTENSITY_def parseFloat_empty)
  next
    case False
    with Some show ?thesis
      by (cases "parseFloat e")
         (simp_all add: getGridIntensity_def DEFAULT_GRID_INTENSITY_def isNaN_def)
  qed
qed

lemma co2_finite_grid:
  "getGridIntensity env = Fin g \<Longrightarrow>
   co2Grams (computeCO2 env stats) = Fin (energyKwh (computeCO2 env stats) * g)"
  by (simp add: computeCO2_def Let_def)

text \<open>
  Claim C5, as the claim states it, fails: the override \<^verbatim>\<open>"Infinity"\<close> is not a finite
  number, yet the function returns it (positive infinity) and not the default 400; the
  CO2 of a session with 1000 input tokens is then infinite.
\<close>

theorem grid_intensity_infinity_counterexample:
  "getGridIntensity (Some ''Infinity'') = PosInf \<and>
   getGridIntensity (Some ''Infinity'') \<noteq> Fin 400 \<and>
   co2Grams (computeCO2 (Some ''Infinity'')
        ((newSessionStats 0)\<lparr> inputTokens := 1000, models := [''gpt-4o''] \<rparr>)) = PosInf"
  by (simp add: getGridIntensity_cases parseFloat_Infinity computeCO2_def Let_def
        newSessionStats_def dominantClassOf_def classifyModel_def MODEL_SIZE_get_def
        MODEL_SIZE_def js_inf_def)

text \<open>
  Claim C5, amended. The function returns what \<^verbatim>\<open>parseFloat\<close> reads from the override
  exactly when that is a number greater than 0, positive infinity included, and the
  default 400 in every other case (unset, empty, no numeric prefix, not positive, negative
  infinity). With the override \<^verbatim>\<open>"50"\<close> the CO2 is the energy times 50; with \<^verbatim>\<open>"-5"\<close>,
  \<^verbatim>\<open>"abc"\<close> or no override it is the energy times 400.
\<close>

theorem grid_intensity_override:
  "getGridIntensity env =
     (case env of
        None \<Rightarrow> Fin 400
      | Some e \<Rightarrow>
          (case parseFloat e of
             Fin r \<Rightarrow> if r > 0 then Fin r else Fin 400
           | PosInf \<Rightarrow> PosInf
           | NegInf \<Rightarrow> Fin 400
           | NaN \<Rightarrow> Fin 400)) \<and>
   getGridIntensity (Some ''50'') = Fin 50 \<and>
   co2Grams (computeCO2 (Some ''50'') stats)
     = Fin (energyKwh (computeCO2 (Some ''50'') stats) * 50) \<and>
   getGridIntensity (Some ''-5'') = Fin 400 \<and>
   co2Grams (computeCO2 (Some ''-5'') stats)
     = Fin (energyKwh (computeCO2 (Some ''-5'') stats) * 400) \<and>
   getGridIntensity (Some ''abc'') = Fin 400 \<and>
   co2Grams (computeCO2 (Some ''abc'') stats)
     = Fin (energyKwh (computeCO2 (Some ''abc'') stats) * 400) \<and>
   getGridIntensity None = Fin 400 \<and>
   co2Grams (computeCO2 None stats) = Fin (energyKwh (computeCO2 None stats) * 400)"
proof -
  have a: "getGridIntensity (Some ''50'') = Fin 50"
    by (simp add: getGridIntensity_cases parseFloat_50)
  have b: "getGridIntensity (Some ''-5'') = Fin 400"
    by (simp add: getGridIntensity_cases parseFloat_minus_5)
  have c: "getGridIntensity (Some ''abc'') = Fin 400"
    by (simp add: getGridIntensity_cases parseFloat_abc)
  have d: "getGridIntensity None = Fin 400"
    by (simp add: getGridIntensity_cases)
  show ?thesis
    using getGridIntensity_cases [of env] a b c d
      co2_finite_grid [OF a, of stats] co2_finite_grid [OF b, of stats]
      co2_finite_grid [OF c, of stats] co2_finite_grid [OF d, of stats]
    by simp
qed

text \<open>
  The spec's scenario: 1000 input and 500 output tokens on a small model. The energy is
  0.00045 kWh; the CO2 is 0.0225 g under the override \<^verbatim>\<open>"50"\<close> and 0.18 g by default.
\<close>

theorem grid_intensity_override_witness:
  "getGridIntensity (Some ''50'') = Fin 50 \<and>
   co2Grams (computeCO2 (Some ''50'')
      ((newSessionStats 0)\<lparr> inputTokens := 1000, outputTokens := 500,
          models := [''claude-haiku-4-5''] \<rparr>)) = Fin 0.0225 \<and>
   co2Grams (computeCO2 None
      ((newSessionStats 0)\<lparr> inputTokens := 1000, outputTokens := 500,
          models := [''claude-haiku-4-5''] \<rparr>)) = Fin 0.18"
proof -
  let ?stats = "(newSessionStats 0)\<lparr> inputTokens := 1000, outputTokens := 500,
          models := [''claude-haiku-4-5''] \<rparr>"
  have e50: "energyKwh (computeCO2 (Some ''50'') ?stats) = 0.00045"
    by (simp add: computeCO2_def Let_def newSessionStats_def dominantClassOf_def
          classifyModel_def MODEL_SIZE_get_def MODEL_SIZE_def)
  have e0: "energyKwh (computeCO2 None ?stats) = 0.00045"
    by (simp add: computeCO2_def Let_def newSessionStats_def dominantClassOf_def
          classifyModel_def MODEL_SIZE_get_def MODEL_SIZE_def)
  note ov = grid_intensity_override [of "Some ''50''" ?stats]
  from ov have g: "getGridIntensity (Some ''50'') = Fin 50"
    by blast
  from ov have "co2Grams (computeCO2 (Some ''50'') ?stats)
      = Fin (energyKwh (computeCO2 (Some ''50'') ?stats) * 50)"
    by blast
  then have c50: "co2Grams (computeCO2 (Some ''50'') ?stats) = Fin 0.0225"
    unfolding e50 by simp
  from ov have "co2Grams (computeCO2 None ?stats)
      = Fin (energyKwh (computeCO2 None ?stats) * 400)"
    by blast
  then have c0: "co2Grams (computeCO2 None ?stats) = Fin 0.18"
    unfolding e0 by simp
  from g c50 c0 show ?thesis by blast
qed

subsection \<open>Eco grade\<close>

text \<open>The doubles that the decimal bounds of the ladder denote.\<close>

lemma toDouble_0_1: "toDouble 0.1 = Fin (3602879701896397 / 2 ^ 55)"
  by code_simp
lemma toDouble_0_3: "toDouble 0.3 = Fin (5404319552844595 / 2 ^ 54)"
  by code_simp
lemma toDouble_0_8: "toDouble 0.8 = Fin (3602879701896397 / 2 ^ 52)"
  by code_simp
lemma toDouble_1_5: "toDouble 1.5 = Fin (3 / 2)"
  by code_simp
lemma toDouble_3: "toDouble 3.0 = Fin 3"
  by code_simp
lemma toDouble_6: "toDouble 6.0 = Fin 6"
  by code_simp

lemmas toDouble_bounds =
  toDouble_0_1 toDouble_0_3 toDouble_0_8 toDouble_1_5 toDouble_3 toDouble_6

lemma gradeLoop_ladder:
  "gradeLoop p ECO_THRESHOLDS =
     (if js_le p (toDouble 0.1) then Some (snd (ECO_THRESHOLDS ! 0))
      else if js_le p (toDouble 0.3) then Some (snd (ECO_THRESHOLDS ! 1))
      else if js_le p (toDouble 0.8) then Some (snd (ECO_THRESHOLDS ! 2))
      else if js_le p (toDouble 1.5) then Some (snd (ECO_THRESHOLDS ! 3))
      else if js_le p (toDouble 3.0) then Some (snd (ECO_THRESHOLDS ! 4))
      else if js_le p (toDouble 6.0) then Some (snd (ECO_THRESHOLDS ! 5))
      else if js_le p PosInf then Some (snd (ECO_THRESHOLDS ! 6))
      else None)"
  by (simp add: ECO_THRESHOLDS_def)

lemma js_le_PosInf: "js_le p PosInf = (\<not> isNaN p)"
  by (cases p) (simp_all add: isNaN_def)

lemma getEcoGrade_letter:
  "grade (getEcoGrade co2 msgs) =
     (let p = perMessage co2 msgs
      in if js_le p (toDouble 0.1) then ''A+'' else if js_le p (toDouble 0.3) then ''A''
         else if js_le p (toDouble 0.8) then ''B'' else if js_le p (toDouble 1.5) then ''B-''
         else if js_le p (toDouble 3.0) then ''C'' else if js_le p (toDouble 6.0) then ''D''
         else ''F'')"
  by (simp add: getEcoGrade_def gradeLoop_ladder Let_def) (simp add: ECO_THRESHOLDS_def)

lemma getEcoGrade_level:
  "level (getEcoGrade co2 msgs) =
     (let p = perMessage co2 msgs
      in if js_le p (toDouble 0.1) then 1 else if js_le p (toDouble 0.3) then 2
         else if js_le p (toDouble 0.8) then 3 else if js_le p (toDouble 1.5) then 4
         else if js_le p (toDouble 3.0) then 6 else if js_le p (toDouble 6.0) then 8
         else 10)"
  by (simp add: getEcoGrade_def gradeLoop_ladder Let_def) (simp add: ECO_THRESHOLDS_def)

lemma ladder_level_mono:
  "js_le p q \<Longrightarrow>
   (if js_le p (toDouble 0.1) then 1 else if js_le p (toDouble 0.3) then 2
    else if js_le p (toDouble 0.8) then 3 else if js_le p (toDouble 1.5) then 4
    else if js_le p (toDouble 3.0) then 6 else if js_le p (toDouble 6.0) then 8
    else (10::nat))
   \<le> (if js_le q (toDouble 0.1) then 1 else if js_le q (toDouble 0.3) then 2
       else if js_le q (toDouble 0.8) then 3 else if js_le q (toDouble 1.5) then 4
       else if js_le q (toDouble 3.0) then 6 else if js_le q (toDouble 6.0) then 8
       else 10)"
  unfolding toDouble_bounds by (cases p; cases q) simp_all

text \<open>When the loop returns a grade, it is that of the first entry whose bound is not below.\<close>

lemma gradeLoop_first:
  "gradeLoop p ts = Some g \<Longrightarrow>
   \<exists>i<length ts. snd (ts ! i) = g \<and> js_le p (fst (ts ! i)) \<and>
      (\<forall>j<i. \<not> js_le p (fst (ts ! j)))"
proof (induction ts)
  case Nil
  then show ?case by simp
next
  case (Cons t ts)
  obtain b g0 where t: "t = (b, g0)" by (cases t)
  show ?case
  proof (cases "js_le p b")
    case True
    with Cons.prems t have "g0 = g" by simp
    with True t have "0 < length (t # ts) \<and> snd ((t # ts) ! 0) = g \<and>
        js_le p (fst ((t # ts) ! 0)) \<and> (\<forall>j<0. \<not> js_le p (fst ((t # ts) ! j)))"
      by simp
    then show ?thesis by blast
  next
    case False
    with Cons.prems t have "gradeLoop p ts = Some g" by simp
    from Cons.IH [OF this] obtain i where i: "i < length ts" "snd (ts ! i) = g"
      "js_le p (fst (ts ! i))" "\<forall>j<i. \<not> js_le p (fst (ts ! j))" by blast
    have "\<forall>j<Suc i. \<not> js_le p (fst ((t # ts) ! j))"
    proof (intro allI impI)
      fix j assume "j < Suc i"
      then show "\<not> js_le p (fst ((t # ts) ! j))"
        using False t i(4) by (cases j) auto
    qed
    with i have "Suc i < length (t # ts) \<and> snd ((t # ts) ! Suc i) = g \<and>
        js_le p (fst ((t # ts) ! Suc i)) \<and> (\<forall>j<Suc i. \<not> js_le p (fst ((t # ts) ! j)))"
      by simp
    then show ?thesis by blast
  qed
qed

lemma gradeLoop_total: "\<not> isNaN p \<Longrightarrow> \<exists>g. gradeLoop p ECO_THRESHOLDS = Some g"
  by (simp add: gradeLoop_ladder js_le_PosInf)

lemma gradeLoop_NaN: "gradeLoop NaN ts = None"
  by (induction ts) auto

lemma length_ECO_THRESHOLDS: "length ECO_THRESHOLDS = 7"
  by (simp add: ECO_THRESHOLDS_def)

text \<open>
  Claim C6. For every \<open>co2Grams\<close> (finite, infinite or NaN, the non-negative ones among
  them) and every message count, with \<open>perMessage\<close> the double \<open>co2Grams / messages\<close>
  when \<open>messages > 0\<close> and 0 otherwise: the grade returned is an entry of the ladder,
  and unless \<open>perMessage\<close> is NaN it is the first entry whose bound is at least
  \<open>perMessage\<close>; its letter is A+ up to the double 0.1, A up to 0.3, B up to 0.8, B- up
  to 1.5, C up to 3, D up to 6 and F otherwise; and a larger \<open>perMessage\<close> never gives a
  lower (better) severity level.
\<close>

theorem grade_total_and_monotone:
  assumes "p = perMessage co2 msgs" and "p' = perMessage co2' msgs'"
  shows "p = (if 0 < msgs then js_div co2 (Fin (real_of_int msgs)) else Fin 0) \<and>
    (\<exists>i<length ECO_THRESHOLDS.
        getEcoGrade co2 msgs = snd (ECO_THRESHOLDS ! i) \<and>
        (\<not> isNaN p \<longrightarrow>
           js_le p (fst (ECO_THRESHOLDS ! i)) \<and>
           (\<forall>j<i. \<not> js_le p (fst (ECO_THRESHOLDS ! j))))) \<and>
    grade (getEcoGrade co2 msgs) =
      (if js_le p (toDouble 0.1) then ''A+'' else if js_le p (toDouble 0.3) then ''A''
       else if js_le p (toDouble 0.8) then ''B'' else if js_le p (toDouble 1.5) then ''B-''
       else if js_le p (toDouble 3.0) then ''C'' else if js_le p (toDouble 6.0) then ''D''
       else ''F'') \<and>
    (js_le p p' \<longrightarrow> level (getEcoGrade co2 msgs) \<le> level (getEcoGrade co2' msgs'))"
proof -
  have pm: "p = (if 0 < msgs then js_div co2 (Fin (real_of_int msgs)) else Fin 0)"
    using assms(1) by (simp add: perMessage_def)
  have first: "\<exists>i<length ECO_THRESHOLDS.
        getEcoGrade co2 msgs = snd (ECO_THRESHOLDS ! i) \<and>
        (\<not> isNaN p \<longrightarrow>
           js_le p (fst (ECO_THRESHOLDS ! i)) \<and>
           (\<forall>j<i. \<not> js_le p (fst (ECO_THRESHOLDS ! j))))"
  proof (cases "isNaN p")
    case True
    then have "gradeLoop (perMessage co2 msgs) ECO_THRESHOLDS = None"
      using assms(1) by (simp add: isNaN_def gradeLoop_NaN)
    then have "getEcoGrade co2 msgs = snd (ECO_THRESHOLDS ! 6)"
      by (simp add: getEcoGrade_def length_ECO_THRESHOLDS)
    with True have "6 < length ECO_THRESHOLDS \<and>
        getEcoGrade co2 msgs = snd (ECO_THRESHOLDS ! 6) \<and>
        (\<not> isNaN p \<longrightarrow>
           js_le p (fst (ECO_THRESHOLDS ! 6)) \<and>
           (\<forall>j<6. \<not> js_le p (fst (ECO_THRESHOLDS ! j))))"
      by (simp add: length_ECO_THRESHOLDS)
    then show ?thesis by blast
  next
    case False
    then obtain g where g: "gradeLoop p ECO_THRESHOLDS = Some g"
      using gradeLoop_total by blast
    then have "getEcoGrade co2 msgs = g"
      using assms(1) by (simp add: getEcoGrade_def)
    with gradeLoop_first [OF g] show ?thesis by auto
  qed
  have letter: "grade (getEcoGrade co2 msgs) =
      (if js_le p (toDouble 0.1) then ''A+'' else if js_le p (toDouble 0.3) then ''A''
       else if js_le p (toDouble 0.8) then ''B'' else if js_le p (toDouble 1.5) then ''B-''
       else if js_le p (toDouble 3.0) then ''C'' else if js_le p (toDouble 6.0) then ''D''
       else ''F'')"
    unfolding assms(1) getEcoGrade_letter Let_def ..
  have mono: "js_le p p' \<longrightarrow> level (getEcoGrade co2 msgs) \<le> level (getEcoGrade co2' msgs')"
  proof
    assume "js_le p p'"
    then show "level (getEcoGrade co2 msgs) \<le> level (getEcoGrade co2' msgs')"
      unfolding assms getEcoGrade_level Let_def by (rule ladder_level_mono)
  qed
  from pm first letter mono show ?thesis by blast
qed

text \<open>
  The division is rounded: the double 2.7 over 9 messages is 0.30000000000000004, above
  the bound 0.3, hence grade B; the double 0.9 over 3 messages is the double 0.3 itself,
  hence grade A; the double 0.1 over one message meets the first bound.
\<close>

lemma toDouble_2_7: "toDouble 2.7 = Fin (3039929748475085 / 2 ^ 50)"
  by code_simp

lemma toDouble_0_9: "toDouble 0.9 = Fin (8106479329266893 / 2 ^ 53)"
  by code_simp

lemma quotient_2_7_by_9:
  "js_div (toDouble 2.7) (Fin 9) = Fin (1351079888211149 / 2 ^ 52)"
  unfolding toDouble_2_7 by code_simp

lemma quotient_0_9_by_3:
  "js_div (toDouble 0.9) (Fin 3) = Fin (5404319552844595 / 2 ^ 54)"
  unfolding toDouble_0_9 by code_simp

lemma getEcoGrade_rounded_examples:
  "grade (getEcoGrade (toDouble 2.7) 9) = ''B'' \<and>
   grade (getEcoGrade (toDouble 0.9) 3) = ''A'' \<and>
   grade (getEcoGrade (toDouble 0.1) 1) = ''A+''"
proof -
  have a: "perMessage (toDouble 2.7) 9 = Fin (1351079888211149 / 2 ^ 52)"
    using quotient_2_7_by_9 by (simp add: perMessage_def)
  have b: "perMessage (toDouble 0.9) 3 = Fin (5404319552844595 / 2 ^ 54)"
    using quotient_0_9_by_3 by (simp add: perMessage_def)
  have "js_div (toDouble 0.1) (Fin 1) = Fin (3602879701896397 / 2 ^ 55)"
    unfolding toDouble_0_1 by code_simp
  then have c: "perMessage (toDouble 0.1) 1 = Fin (3602879701896397 / 2 ^ 55)"
    by (simp add: perMessage_def)
  have le: "js_le (perMessage (toDouble 0.1) 1) (toDouble 0.1)"
    using c by (simp add: toDouble_0_1)
  have g3: "grade (getEcoGrade (toDouble 0.1) 1) = ''A+''"
    unfolding getEcoGrade_letter Let_def using le by simp
  have g12: "grade (getEcoGrade (toDouble 2.7) 9) = ''B'' \<and>
      grade (getEcoGrade (toDouble 0.9) 3) = ''A''"
    unfolding getEcoGrade_letter Let_def a b toDouble_bounds by simp
  from g12 g3 show ?thesis by blast
qed

text \<open>
  On NaN no bound matches, the loop runs to its end and the last grade is returned; an
  infinite amount over a positive count of messages meets the last bound only.
\<close>

lemma getEcoGrade_not_finite:
  "gradeLoop NaN ECO_THRESHOLDS = None \<and>
   grade (getEcoGrade NaN 1) = ''F'' \<and>
   grade (getEcoGrade PosInf 1) = ''F''"
proof -
  have n: "perMessage NaN 1 = NaN"
    by (simp add: perMessage_def)
  have i: "perMessage PosInf 1 = PosInf"
    by (simp add: perMessage_def js_inf_def)
  show ?thesis
    unfolding getEcoGrade_letter Let_def n i toDouble_bounds
    by (simp add: gradeLoop_NaN)
qed

text \<open>
  The double 0.9 over 3 messages is grade A, the double 2.7 over 9 messages is grade B,
  and the first is no worse than the second.
\<close>

theorem grade_total_and_monotone_witness:
  "grade (getEcoGrade (toDouble 2.7) 9) = ''B'' \<and>
   grade (getEcoGrade (toDouble 0.9) 3) = ''A'' \<and>
   level (getEcoGrade (toDouble 0.9) 3) \<le> level (getEcoGrade (toDouble 2.7) 9)"
proof -
  have a: "perMessage (toDouble 2.7) 9 = Fin (1351079888211149 / 2 ^ 52)"
    using quotient_2_7_by_9 by (simp add: perMessage_def)
  have b: "perMessage (toDouble 0.9) 3 = Fin (5404319552844595 / 2 ^ 54)"
    using quotient_0_9_by_3 by (simp add: perMessage_def)
  have le: "js_le (perMessage (toDouble 0.9) 3) (perMessage (toDouble 2.7) 9)"
    unfolding a b by simp
  note t = grade_total_and_monotone [OF refl refl, of "toDouble 0.9" 3 "toDouble 2.7" 9]
  from t le have l: "level (getEcoGrade (toDouble 0.9) 3) \<le> level (getEcoGrade (toDouble 2.7) 9)"
    by blast
  from t have "grade (getEcoGrade (toDouble 0.9) 3) =
      (if js_le (perMessage (toDouble 0.9) 3) (toDouble 0.1) then ''A+''
       else if js_le (perMessage (toDouble 0.9) 3) (toDouble 0.3) then ''A''
       else if js_le (perMessage (toDouble 0.9) 3) (toDouble 0.8) then ''B''
       else if js_le (perMessage (toDouble 0.9) 3) (toDouble 1.5) then ''B-''
       else if js_le (perMessage (toDouble 0.9) 3) (toDouble 3.0) then ''C''
       else if js_le (perMessage (toDouble 0.9) 3) (toDouble 6.0) then ''D''
       else ''F'')"
    by blast
  then have g1: "grade (getEcoGrade (toDouble 0.9) 3) = ''A''"
    unfolding b toDouble_bounds by simp
  note t' = grade_total_and_monotone [OF refl refl, of "toDouble 2.7" 9 "toDouble 2.7" 9]
  from t' have "grade (getEcoGrade (toDouble 2.7) 9) =
      (if js_le (perMessage (toDouble 2.7) 9) (toDouble 0.1) then ''A+''
       else if js_le (perMessage (toDouble 2.7) 9) (toDouble 0.3) then ''A''
       else if js_le (perMessage (toDouble 2.7) 9) (toDouble 0.8) then ''B''
       else if js_le (perMessage (toDouble 2.7) 9) (toDouble 1.5) then ''B-''
       else if js_le (perMessage (toDouble 2.7) 9) (toDouble 3.0) then ''C''
       else if js_le (perMessage (toDouble 2.7) 9) (toDouble 6.0) then ''D''
       else ''F'')"
    by blast
  then have g2: "grade (getEcoGrade (toDouble 2.7) 9) = ''B''"
    unfolding a toDouble_bounds by simp
  from g2 g1 l show ?thesis by blast
qed


subsection \<open>Model classifier\<close>

text \<open>\<open>str_includes\<close> is the substring test.\<close>

lemma isPrefix_iff: "isPrefix sub s \<longleftrightarrow> (\<exists>post. s = sub @ post)"
  unfolding isPrefix_def by (metis append_eq_conv_conj append_take_drop_id)

lemma str_includes_iff: "str_includes s sub \<longleftrightarrow> (\<exists>pre post. s = pre @ sub @ post)"
proof (induction s)
  case Nil
  then show ?case by simp
next
  case (Cons c cs)
  have "(\<exists>pre post. c # cs = pre @ sub @ post) \<longleftrightarrow>
      (\<exists>post. c # cs = sub @ post) \<or> (\<exists>pre post. cs = pre @ sub @ post)"
  proof
    assume "\<exists>pre post. c # cs = pre @ sub @ post"
    then obtain pre post where e: "c # cs = pre @ sub @ post" by blast
    show "(\<exists>post. c # cs = sub @ post) \<or> (\<exists>pre post. cs = pre @ sub @ post)"
    proof (cases pre)
      case Nil
      with e show ?thesis by auto
    next
      case (Cons a pre')
      with e show ?thesis by auto
    qed
  next
    assume "(\<exists>post. c # cs = sub @ post) \<or> (\<exists>pre post. cs = pre @ sub @ post)"
    then show "\<exists>pre post. c # cs = pre @ sub @ post"
    proof
      assume "\<exists>post. c # cs = sub @ post"
      then show ?thesis by (metis append_Nil)
    next
      assume "\<exists>pre post. cs = pre @ sub @ post"
      then obtain pre post where "cs = pre @ sub @ post" by blast
      then have "c # cs = (c # pre) @ sub @ post" by simp
      then show ?thesis by blast
    qed
  qed
  with Cons.IH show ?case by (simp add: isPrefix_iff)
qed

text \<open>
  For an identifier that is not a property name of \<^verbatim>\<open>Object.prototype\<close> the classifier
  returns a tier: the table's on a hit, then small on a small marker, then large on a
  large marker, and medium otherwise.
\<close>

lemma classifyModel_outside_prototype:
  assumes "mID \<notin> set Object_prototype_names"
  shows "classifyModel mID =
     (case map_of MODEL_SIZE mID of
        Some t \<Rightarrow> Tier t
      | None \<Rightarrow>
          if str_includes (toLowerCase mID) ''haiku'' \<or> str_includes (toLowerCase mID) ''mini''
             \<or> str_includes (toLowerCase mID) ''nano'' \<or> str_includes (toLowerCase mID) ''flash''
          then Tier Small
          else if str_includes (toLowerCase mID) ''opus''
                  \<or> (str_includes (toLowerCase mID) ''o3''
                      \<and> \<not> str_includes (toLowerCase mID) ''mini'')
          then Tier Large
          else Tier Medium)"
  using assms by (simp add: classifyModel_def MODEL_SIZE_get_def Let_def split: option.splits)

lemma classifyModel_examples:
  "classifyModel ''claude-opus-4'' = Tier Large \<and>
   classifyModel ''o3-mini'' = Tier Medium \<and>
   classifyModel ''O3-Mini-2025'' = Tier Small \<and>
   classifyModel ''o3-pro'' = Tier Large \<and>
   classifyModel ''Claude-Opus-5'' = Tier Large \<and>
   classifyModel ''llama-3'' = Tier Medium"
  by code_simp

text \<open>
  Claim C8. The claim is that the classifier returns one of small, medium, large for
  every identifier, and medium for one that is in neither the table nor marked. The
  identifier \<^verbatim>\<open>constructor\<close> is not in the table and holds no marker, and the source
  returns for it what \<^verbatim>\<open>MODEL_SIZE["constructor"]\<close> reads from the prototype: a function,
  which is truthy and no tier.
\<close>

theorem classifyModel_inherited_member:
  "map_of MODEL_SIZE ''constructor'' = None \<and>
   \<not> str_includes (toLowerCase ''constructor'') ''haiku'' \<and>
   \<not> str_includes (toLowerCase ''constructor'') ''mini'' \<and>
   \<not> str_includes (toLowerCase ''constructor'') ''nano'' \<and>
   \<not> str_includes (toLowerCase ''constructor'') ''flash'' \<and>
   \<not> str_includes (toLowerCase ''constructor'') ''opus'' \<and>
   \<not> str_includes (toLowerCase ''constructor'') ''o3'' \<and>
   classifyModel ''constructor'' = Inherited ''constructor'' \<and>
   classifyModel ''constructor'' \<noteq> Tier Medium"
  by code_simp

subsection \<open>Dominant tier\<close>

lemma dominantLoop_Medium:
  "dominantLoop Medium ms =
     (if \<exists>m\<in>set ms. classifyModel m = Tier Large then Large else Medium)"
  by (induction ms) (auto simp: Let_def)

text \<open>
  Large when some model classifies as large; otherwise medium when some model classifies
  as medium; otherwise small.
\<close>

lemma dominantClassOf_precedence:
  "dominantClassOf ms =
     (if \<exists>m\<in>set ms. classifyModel m = Tier Large then Large
      else if \<exists>m\<in>set ms. classifyModel m = Tier Medium then Medium
      else Small)"
  unfolding dominantClassOf_def
  by (induction ms) (auto simp: Let_def dominantLoop_Medium)

lemma computeCO2_rate:
  "energyKwh (computeCO2 env stats) =
     real_of_int (inputTokens stats + outputTokens stats + reasoningTokens stats)
       * ENERGY_PER_TOKEN_KWH (dominantClassOf (models stats))"
  by (simp add: computeCO2_def Let_def)

text \<open>
  Claim C7. The claim is that the small rate is used only when every model of the
  session classifies as small. For a session whose only model is \<^verbatim>\<open>constructor\<close> the
  classifier returns no tier (see claim C8), so the loop keeps its initial class: the
  estimator uses the small rate, 0.0003 kWh for 1000 tokens, although the model does not
  classify as small.
\<close>

theorem dominant_small_without_small_model:
  "classifyModel ''constructor'' \<noteq> Tier Small \<and>
   dominantClassOf [''constructor''] = Small \<and>
   energyKwh (computeCO2 None
      ((newSessionStats 0)\<lparr> inputTokens := 1000, models := [''constructor''] \<rparr>))
     = 1000 * ENERGY_PER_TOKEN_KWH Small"
  by code_simp

end
